theory Spec2Isabelle
  imports Main
begin

section \<open>Byte strings and slices\<close>

text \<open>
  Go strings and byte slices are sequences of bytes; both are modelled as \<open>string\<close>
  (a list of 8-bit characters). A slice value that may be \<open>nil\<close> is an option:
  \<open>None\<close> is the nil slice, \<open>Some []\<close> the empty slice that is not nil.
\<close>

type_synonym bytes = string
type_synonym slice = "bytes option"

definition len :: "slice \<Rightarrow> nat" where
  "len s = (case s of None \<Rightarrow> 0 | Some v \<Rightarrow> length v)"

text \<open>\<open>make([]byte, n)\<close>: a fresh slice of \<open>n\<close> zero bytes, never nil.\<close>

definition make_bytes :: "nat \<Rightarrow> bytes" where
  "make_bytes n = replicate n (CHR 0x00)"

text \<open>\<open>copy(dst, src)\<close>: overwrites the first \<open>min (len dst) (len src)\<close> bytes of dst.\<close>

definition copy :: "bytes \<Rightarrow> slice \<Rightarrow> bytes" where
  "copy dst src =
     (case src of None \<Rightarrow> dst
      | Some v \<Rightarrow> take (length dst) v @ drop (length v) dst)"

text \<open>\<open>bytes.HasPrefix\<close> / \<open>strings.HasPrefix\<close>.\<close>

fun HasPrefix :: "bytes \<Rightarrow> bytes \<Rightarrow> bool" where
  "HasPrefix s [] = True"
| "HasPrefix [] (p # ps) = False"
| "HasPrefix (c # cs) (p # ps) = (c = p \<and> HasPrefix cs ps)"

text \<open>\<open>strings.HasSuffix\<close> and \<open>strings.TrimSuffix\<close>.\<close>

definition HasSuffix :: "bytes \<Rightarrow> bytes \<Rightarrow> bool" where
  "HasSuffix s suffix =
     (length suffix \<le> length s \<and> drop (length s - length suffix) s = suffix)"

definition TrimSuffix :: "bytes \<Rightarrow> bytes \<Rightarrow> bytes" where
  "TrimSuffix s suffix =
     (if HasSuffix s suffix then take (length s - length suffix) s else s)"

text \<open>\<open>strings.Contains\<close>: the substring occurs at some offset.\<close>

fun Contains :: "bytes \<Rightarrow> bytes \<Rightarrow> bool" where
  "Contains [] substr = HasPrefix [] substr"
| "Contains (c # cs) substr = (HasPrefix (c # cs) substr \<or> Contains cs substr)"

text \<open>\<open>strings.Join\<close>.\<close>

fun Join :: "bytes list \<Rightarrow> bytes \<Rightarrow> bytes" where
  "Join [] sep = []"
| "Join [x] sep = x"
| "Join (x # y # ys) sep = x @ sep @ Join (y # ys) sep"

text \<open>\<open>bytes.Compare a b < 0\<close>: the byte-wise lexicographic order of the store's keys.\<close>

fun bytes_less :: "bytes \<Rightarrow> bytes \<Rightarrow> bool" where
  "bytes_less [] [] = False"
| "bytes_less [] (y # ys) = True"
| "bytes_less (x # xs) [] = False"
| "bytes_less (x # xs) (y # ys) =
     ((of_char x :: nat) < of_char y \<or> (x = y \<and> bytes_less xs ys))"

section \<open>Errors\<close>

datatype error =
    EmptyBucketName
  | BucketMustBeNested "bytes list"
  | ErrBucketNameRequired
  | ErrIncompatibleValue
  | ErrKeyRequired
  | ErrKeyTooLarge
  | ErrValueTooLarge
  | External string
  | Wrapped string error

section \<open>The store: nested buckets of a bbolt transaction\<close>

text \<open>
  The state a transaction sees is a tree. A bucket holds its entries in key order; an
  entry is either a stored value or a nested bucket. The transaction itself is the root
  bucket, whose entries are the top-level buckets.
\<close>

datatype node = Leaf bytes | Bkt "(bytes \<times> node) list"

type_synonym bucket = "(bytes \<times> node) list"
type_synonym tx = bucket

text \<open>\<open>Bucket.Bucket(name)\<close> and \<open>Tx.Bucket(name)\<close>: nil unless the name is there
  and names a bucket.\<close>

definition Bucket :: "bucket \<Rightarrow> bytes \<Rightarrow> bucket option" where
  "Bucket b name =
     (case map_of b name of Some (Bkt es) \<Rightarrow> Some es | _ \<Rightarrow> None)"

text \<open>\<open>Bucket.Get(key)\<close>: nil when the key is absent or names a nested bucket.\<close>

definition Get :: "bucket \<Rightarrow> bytes \<Rightarrow> slice" where
  "Get b key = (case map_of b key of Some (Leaf v) \<Rightarrow> Some v | _ \<Rightarrow> None)"

text \<open>\<open>Bucket.ForEach(fn)\<close>: calls \<open>fn\<close> on every entry in key order, with a nil value
  for a nested bucket, and stops at the first error. The callback's captured variables
  are the threaded state.\<close>

fun ForEach :: "bucket \<Rightarrow> (bytes \<Rightarrow> slice \<Rightarrow> 's \<Rightarrow> error + 's) \<Rightarrow> 's \<Rightarrow> error + 's" where
  "ForEach [] fn s = Inr s"
| "ForEach ((k, n) # es) fn s =
     (case fn k (case n of Leaf v \<Rightarrow> Some v | Bkt _ \<Rightarrow> None) s of
        Inl e \<Rightarrow> Inl e
      | Inr s' \<Rightarrow> ForEach es fn s')"

text \<open>\<open>Cursor.Seek(prefix)\<close> on the root bucket positions the cursor at the first key
  not below \<open>prefix\<close>; \<open>Cursor.Next\<close> moves on in key order. The remaining entries
  are what the cursor still has to visit.\<close>

definition Seek :: "bucket \<Rightarrow> bytes \<Rightarrow> bucket" where
  "Seek b prefix = dropWhile (\<lambda>(k, _). bytes_less k prefix) b"

text \<open>Keys of a bucket are unique and kept in ascending byte order.\<close>

fun sorted_keys :: "bytes list \<Rightarrow> bool" where
  "sorted_keys [] = True"
| "sorted_keys [k] = True"
| "sorted_keys (k # k' # ks) = (bytes_less k k' \<and> sorted_keys (k' # ks))"

section \<open>Point lookup: \<open>Config.get\<close>\<close>

text \<open>The loop over \<open>bktNames[1:]\<close>: descend one nested bucket per name, giving up with
  nil at the first one that is missing.\<close>

fun descend :: "bucket \<Rightarrow> bytes list \<Rightarrow> bucket option" where
  "descend bkt [] = Some bkt"
| "descend bkt (bktName # rest) =
     (case Bucket bkt bktName of None \<Rightarrow> None | Some b \<Rightarrow> descend b rest)"

text \<open>The closure passed to \<open>db.View\<close>: it returns an error or leaves the named result
  \<open>value\<close>, which starts as nil, possibly assigned.\<close>

definition get_view :: "tx \<Rightarrow> bytes list \<Rightarrow> bytes \<Rightarrow> error + slice" where
  "get_view tx bktNames key =
     (if length bktNames = 0 then Inl EmptyBucketName
      else case Bucket tx (hd bktNames) of
             None \<Rightarrow> Inr None
           | Some bkt \<Rightarrow>
               (case descend bkt (tl bktNames) of
                  None \<Rightarrow> Inr None
                | Some b \<Rightarrow>
                    (let dbValue = Get b key
                     in Inr (Some (copy (make_bytes (len dbValue)) dbValue)))))"

definition get :: "tx \<Rightarrow> bytes list \<Rightarrow> bytes \<Rightarrow> error + slice" where
  "get tx bktNames key =
     (case get_view tx bktNames key of
        Inl err \<Rightarrow> Inl (Wrapped ''failed to get data from db'' err)
      | Inr v \<Rightarrow> Inr v)"

section \<open>Writes: \<open>Config.put\<close>\<close>

text \<open>Limits of the store (\<open>MaxKeySize\<close>, \<open>MaxValueSize\<close>).\<close>

definition MaxKeySize :: nat where
  "MaxKeySize = 32768"

definition MaxValueSize :: nat where
  "MaxValueSize = 2 ^ 31 - 2"

text \<open>Writing an entry keeps the keys unique and in order.\<close>

fun store_entry :: "bytes \<Rightarrow> node \<Rightarrow> bucket \<Rightarrow> bucket" where
  "store_entry k n [] = [(k, n)]"
| "store_entry k n ((k', n') # es) =
     (if k = k' then (k, n) # es
      else if bytes_less k k' then (k, n) # (k', n') # es
      else (k', n') # store_entry k n es)"

text \<open>\<open>CreateBucketIfNotExists(name)\<close>: the nested bucket of that name, new and empty
  when there was none; an error for an empty name or a name that holds a value.\<close>

definition CreateBucketIfNotExists :: "bucket \<Rightarrow> bytes \<Rightarrow> error + bucket" where
  "CreateBucketIfNotExists b name =
     (if length name = 0 then Inl ErrBucketNameRequired
      else case map_of b name of
             None \<Rightarrow> Inr []
           | Some (Bkt es) \<Rightarrow> Inr es
           | Some (Leaf _) \<Rightarrow> Inl ErrIncompatibleValue)"

text \<open>\<open>Bucket.Put(key, value)\<close>.\<close>

definition Put :: "bucket \<Rightarrow> bytes \<Rightarrow> bytes \<Rightarrow> error + bucket" where
  "Put b key v =
     (if length key = 0 then Inl ErrKeyRequired
      else if length key > MaxKeySize then Inl ErrKeyTooLarge
      else if length v > MaxValueSize then Inl ErrValueTooLarge
      else case map_of b key of
             Some (Bkt _) \<Rightarrow> Inl ErrIncompatibleValue
           | _ \<Rightarrow> Inr (store_entry key (Leaf v) b))"

text \<open>
  The loop over \<open>bktNames[1:]\<close> followed by the marshalling and the write. A bucket
  handle of the source is a reference into the transaction; here the changed bucket is
  returned and written back into its parent. \<open>marshalled\<close> is the result of
  \<open>json.Marshal(value)\<close>, which does not depend on the store; it is looked at only
  after every bucket has been created, as in the source. On an error the transaction is
  not returned: every caller passes the error on and the transaction is rolled back.
\<close>

fun put_nested :: "bucket \<Rightarrow> bytes list \<Rightarrow> bytes \<Rightarrow> error + bytes \<Rightarrow> error + bucket" where
  "put_nested bkt [] key marshalled =
     (case marshalled of
        Inl err \<Rightarrow> Inl (Wrapped ''failed to unmarshal JSON'' err)
      | Inr v \<Rightarrow> Put bkt key v)"
| "put_nested bkt (bktName # rest) key marshalled =
     (case CreateBucketIfNotExists bkt bktName of
        Inl err \<Rightarrow> Inl (Wrapped ''failed to create a bucket'' err)
      | Inr child \<Rightarrow>
          (case put_nested child rest key marshalled of
             Inl err \<Rightarrow> Inl err
           | Inr child' \<Rightarrow> Inr (store_entry bktName (Bkt child') bkt)))"

definition put :: "('a \<Rightarrow> error + bytes) \<Rightarrow> tx \<Rightarrow> bytes list \<Rightarrow> bytes \<Rightarrow> 'a \<Rightarrow> error + tx" where
  "put marshal tx bktNames key v =
     (if length bktNames = 0 then Inl EmptyBucketName
      else case CreateBucketIfNotExists tx (hd bktNames) of
             Inl err \<Rightarrow> Inl (Wrapped ''failed to create bucket'' err)
           | Inr bkt \<Rightarrow>
               (case put_nested bkt (tl bktNames) key (marshal v) of
                  Inl err \<Rightarrow> Inl err
                | Inr bkt' \<Rightarrow> Inr (store_entry (hd bktNames) (Bkt bkt') tx)))"

section \<open>Bulk scan: \<open>Config.forEach\<close>\<close>

record DataSource =
  Name :: string
  URL :: string


record Value =
  Source :: DataSource
  Content :: slice

type_synonym value_map = "bytes \<rightharpoonup> Value"


text \<open>The roots to scan: a cursor walk over the top-level names that start with
  \<open>rootBucket\<close> when it contains the delimiter, the literal name otherwise.\<close>

definition rootBuckets_of :: "tx \<Rightarrow> bytes \<Rightarrow> bytes list" where
  "rootBuckets_of tx rootBucket =
     (if Contains rootBucket ''::''
      then map fst (takeWhile (\<lambda>(k, _). HasPrefix k rootBucket) (Seek tx rootBucket))
      else [rootBucket])"

text \<open>The callback given to \<open>bkt.ForEach\<close>: copy the value, tag it, store it under the
  key in the result map.\<close>

definition forEach_fn :: "DataSource \<Rightarrow> bytes \<Rightarrow> slice \<Rightarrow> value_map \<Rightarrow> error + value_map" where
  "forEach_fn source k v vals =
     (let copiedContent = copy (make_bytes (len v)) v
      in Inr (vals(k \<mapsto> \<lparr>Source = source, Content = Some copiedContent\<rparr>)))"

text \<open>The loop over \<open>rootBuckets\<close>. The error of the provenance lookup is logged and
  dropped; the source it returned is used either way.\<close>

fun forEach_roots ::
  "(tx \<Rightarrow> bytes \<Rightarrow> DataSource \<times> error option) \<Rightarrow> tx \<Rightarrow> bytes list \<Rightarrow> bytes list
     \<Rightarrow> value_map \<Rightarrow> error + value_map" where
  "forEach_roots gds tx nestedBuckets [] vals = Inr vals"
| "forEach_roots gds tx nestedBuckets (r # rs) vals =
     (case Bucket tx r of
        None \<Rightarrow> forEach_roots gds tx nestedBuckets rs vals
      | Some root \<Rightarrow>
          (let source = fst (gds tx r) in
           case descend root nestedBuckets of
             None \<Rightarrow> forEach_roots gds tx nestedBuckets rs vals
           | Some bkt \<Rightarrow>
               (case ForEach bkt (forEach_fn source) vals of
                  Inl err \<Rightarrow> Inl (Wrapped ''db foreach error'' err)
                | Inr vals' \<Rightarrow> forEach_roots gds tx nestedBuckets rs vals')))"

text \<open>\<open>Inl err\<close> is the Go result \<open>(nil, err)\<close>, \<open>Inr values\<close> is \<open>(values, nil)\<close>.\<close>

definition forEach ::
  "(tx \<Rightarrow> bytes \<Rightarrow> DataSource \<times> error option) \<Rightarrow> tx \<Rightarrow> bytes list \<Rightarrow> error + value_map" where
  "forEach gds tx bktNames =
     (if length bktNames < 2 then Inl (BucketMustBeNested bktNames)
      else let rootBucket = hd bktNames; nestedBuckets = tl bktNames in
           case forEach_roots gds tx nestedBuckets (rootBuckets_of tx rootBucket) Map.empty of
             Inl err \<Rightarrow>
               Inl (Wrapped ''failed to get all key/value in the specified bucket'' err)
           | Inr vals \<Rightarrow> Inr vals)"

section \<open>Store handle: \<open>GetBoltOptions\<close> and \<open>Init\<close>\<close>

text \<open>The options \<open>Init\<close> accepts. \<open>time.Duration\<close> and Go's \<open>int\<close> are integers (no
  arithmetic is done on them); the file-open hook is known by its identity, \<open>None\<close>
  being the nil function.\<close>

record BoltOptions =
  Timeout :: int
  NoGrowSync :: bool
  NoFreelistSync :: bool
  PreLoadFreelist :: bool
  ReadOnly :: bool
  MmapFlags :: int
  InitialMmapSize :: int
  PageSize :: int
  NoSync :: bool
  OpenFile :: "nat option"
  Mlock :: bool
  Enable :: bool

text \<open>The store library's own option struct (\<open>bolt.Options\<close>), field for field.\<close>

record bolt_Options =
  bolt_Timeout :: int
  bolt_NoGrowSync :: bool
  bolt_NoFreelistSync :: bool
  bolt_PreLoadFreelist :: bool
  bolt_ReadOnly :: bool
  bolt_MmapFlags :: int
  bolt_InitialMmapSize :: int
  bolt_PageSize :: int
  bolt_NoSync :: bool
  bolt_OpenFile :: "nat option"
  bolt_Mlock :: bool

text \<open>A struct literal leaves every field it does not name at its zero value.\<close>

definition zero_bolt_Options :: bolt_Options where
  "zero_bolt_Options =
     \<lparr>bolt_Timeout = 0, bolt_NoGrowSync = False, bolt_NoFreelistSync = False,
      bolt_PreLoadFreelist = False, bolt_ReadOnly = False, bolt_MmapFlags = 0,
      bolt_InitialMmapSize = 0, bolt_PageSize = 0, bolt_NoSync = False,
      bolt_OpenFile = None, bolt_Mlock = False\<rparr>"

text \<open>\<open>bolt.DefaultOptions\<close>, used by \<open>bolt.Open\<close> when it is given nil: no timeout,
  \<open>NoGrowSync\<close> off.\<close>

definition DefaultOptions :: bolt_Options where
  "DefaultOptions = zero_bolt_Options"

definition GetBoltOptions :: "BoltOptions \<Rightarrow> bolt_Options option" where
  "GetBoltOptions options =
     (if Enable options
      then Some (zero_bolt_Options\<lparr>bolt_ReadOnly := ReadOnly options\<rparr>)
      else None)"

text \<open>
  The store file is absent, exists with zero bytes (created, not yet initialised), or
  holds a tree. What the operating system and the store library do on one run of
  \<open>Init\<close> is not decided by the program: the environment fixes whether \<open>os.MkdirAll\<close>
  and \<open>os.Remove\<close> fail and how each \<open>bolt.Open\<close> call ends: the file cannot be
  opened (\<open>os.OpenFile\<close> fails, nothing is created), the call faults after the file was
  opened (a panic, with \<open>SetPanicOnFault\<close> on), it fails with an error after the file was
  opened (lock timeout, invalid file), or nothing in the environment fails.
\<close>

datatype dbfile = Absent | Blank | Present tx

datatype open_outcome = CannotOpenFile error | Fault | OpenFails error | Opens

record env =
  mkdirAll :: "error option"
  firstOpen :: open_outcome
  remove :: "error option"
  secondOpen :: open_outcome

text \<open>An open handle: the tree it serves and the options in force.\<close>

record DB =
  contents :: tx
  in_force :: bolt_Options

text \<open>The process-wide handle \<open>db\<close>, the fault flag of the runtime and the store file
  at \<open>Path(cacheDir)\<close>. The path computations (\<open>Path\<close>, \<open>Dir\<close>, \<open>dbDir\<close>) are left
  out: the state has the one file they name.\<close>

record state =
  db :: "DB option"
  store_file :: dbfile
  panicOnFault :: bool

datatype 'a run = Panics | Returns 'a

text \<open>The store library opens the file with \<open>O_CREATE\<close> in every mode: a missing file
  exists afterwards, with zero bytes.\<close>

definition opened_file :: "dbfile \<Rightarrow> dbfile" where
  "opened_file f = (case f of Absent \<Rightarrow> Blank | Blank \<Rightarrow> Blank | Present t \<Rightarrow> Present t)"

text \<open>\<open>bolt.Open(path, 0600, options)\<close>: a handle or an error (or a panic), and the file
  afterwards. A zero-byte file is initialised to the empty store by a writable open; a
  read-only open cannot write the initial pages and fails, leaving the zero-byte file.\<close>

definition bolt_Open ::
  "open_outcome \<Rightarrow> dbfile \<Rightarrow> bolt_Options option
     \<Rightarrow> (DB option \<times> error option) run \<times> dbfile" where
  "bolt_Open outcome f options =
     (let opts = (case options of None \<Rightarrow> DefaultOptions | Some opt \<Rightarrow> opt) in
      case outcome of
        CannotOpenFile err \<Rightarrow> (Returns (None, Some err), f)
      | Fault \<Rightarrow> (Panics, opened_file f)
      | OpenFails err \<Rightarrow> (Returns (None, Some err), opened_file f)
      | Opens \<Rightarrow>
          (case opened_file f of
             Present t \<Rightarrow> (Returns (Some \<lparr>contents = t, in_force = opts\<rparr>, None), Present t)
           | _ \<Rightarrow>
               (if bolt_ReadOnly opts
                then (Returns (None, Some (External ''bad file descriptor'')), Blank)
                else (Returns (Some \<lparr>contents = [], in_force = opts\<rparr>, None), Present []))))"

text \<open>\<open>os.Remove(dbPath)\<close>.\<close>

definition os_Remove :: "env \<Rightarrow> dbfile \<Rightarrow> error option \<times> dbfile" where
  "os_Remove e f =
     (case f of
        Absent \<Rightarrow> (Some (External ''no such file or directory''), Absent)
      | _ \<Rightarrow> (case remove e of Some err \<Rightarrow> (Some err, f) | None \<Rightarrow> (None, Absent)))"

text \<open>The deferred function of \<open>Init\<close> on the path where \<open>recover()\<close> is not nil. It
  assigns the named result \<open>err\<close>; returning early leaves \<open>SetPanicOnFault\<close> on.
  A fault inside it is not recovered.\<close>

definition Init_recover :: "env \<Rightarrow> state \<Rightarrow> (error option \<times> state) run" where
  "Init_recover e st =
     (case os_Remove e (store_file st) of
        (Some err, f) \<Rightarrow> Returns (Some err, st\<lparr>store_file := f\<rparr>)
      | (None, f) \<Rightarrow>
          (case bolt_Open (secondOpen e) f None of
             (Panics, f') \<Rightarrow> Panics
           | (Returns (d, err), f') \<Rightarrow>
               Returns (err, st\<lparr>db := d, store_file := f', panicOnFault := False\<rparr>)))"

definition Init :: "env \<Rightarrow> state \<Rightarrow> BoltOptions \<Rightarrow> (error option \<times> state) run" where
  "Init e st options =
     (case mkdirAll e of
        Some err \<Rightarrow> Returns (Some (Wrapped ''failed to mkdir'' err), st)
      | None \<Rightarrow>
          (let st1 = st\<lparr>panicOnFault := True\<rparr>;
               boltOptions = GetBoltOptions options in
           case bolt_Open (firstOpen e) (store_file st1) boltOptions of
             (Panics, f) \<Rightarrow> Init_recover e (st1\<lparr>store_file := f\<rparr>)
           | (Returns (d, Some err), f) \<Rightarrow>
               Returns (Some (Wrapped ''failed to open db'' err),
                        st1\<lparr>db := d, store_file := f, panicOnFault := False\<rparr>)
           | (Returns (d, None), f) \<Rightarrow>
               Returns (None, st1\<lparr>db := d, store_file := f, panicOnFault := False\<rparr>)))"

section \<open>Batch transactions: \<open>Config.BatchUpdate\<close>\<close>

text \<open>
  \<open>db.Update(fn)\<close> runs \<open>fn\<close> in a read-write transaction on the committed state. When
  \<open>fn\<close> returns an error the transaction is rolled back and the error returned;
  otherwise the transaction is committed, and when the commit itself fails (what the
  environment decides, \<open>commitErr\<close>) it is rolled back as well. The store is any type
  \<open>'tx\<close>.
\<close>

definition Update ::
  "error option \<Rightarrow> ('tx \<Rightarrow> error + 'tx) \<Rightarrow> 'tx \<Rightarrow> error option \<times> 'tx" where
  "Update commitErr fn committed =
     (case fn committed of
        Inl err \<Rightarrow> (Some err, committed)
      | Inr tx' \<Rightarrow>
          (case commitErr of Some err \<Rightarrow> (Some err, committed) | None \<Rightarrow> (None, tx')))"

text \<open>
  \<open>db.Batch(fn)\<close> for one caller: \<open>fn\<close> runs in the batch's transaction; when it fails
  there the transaction is rolled back and the caller runs \<open>fn\<close> once more on its own,
  through \<open>db.Update\<close>; when it succeeds the batch commits.
\<close>

definition Batch ::
  "error option \<Rightarrow> ('tx \<Rightarrow> error + 'tx) \<Rightarrow> 'tx \<Rightarrow> error option \<times> 'tx" where
  "Batch commitErr fn committed =
     (case fn committed of
        Inl _ \<Rightarrow> Update commitErr fn committed
      | Inr tx' \<Rightarrow>
          (case commitErr of Some err \<Rightarrow> (Some err, committed) | None \<Rightarrow> (None, tx')))"

definition BatchUpdate ::
  "error option \<Rightarrow> ('tx \<Rightarrow> error + 'tx) \<Rightarrow> 'tx \<Rightarrow> error option \<times> 'tx" where
  "BatchUpdate commitErr fn committed =
     (case Batch commitErr fn committed of
        (Some err, d) \<Rightarrow> (Some (Wrapped ''error in batch update'' err), d)
      | (None, d) \<Rightarrow> (None, d))"

section \<open>Composer ingestion: \<open>VulnSrc.update\<close> and \<open>VulnSrc.walk\<close>\<close>

definition source :: DataSource where
  "source = \<lparr>Name = ''PHP Security Advisories Database'',
             URL = ''https://github.com/FriendsOfPHP/security-advisories''\<rparr>"

record Branch =
  Versions :: "bytes list"

text \<open>\<open>Branches\<close> is a Go map; the list gives its entries in the order the \<open>range\<close>
  loop meets them.\<close>

record RawAdvisory =
  Cve :: string
  Title :: string
  Link :: string
  Reference :: string
  Branches :: "(string \<times> Branch) list"

text \<open>\<open>types.Advisory\<close> and \<open>types.VulnerabilityDetail\<close>, with the fields the composer
  source sets.\<close>

record Advisory =
  VulnerableVersions :: "bytes list"

record VulnerabilityDetail =
  detail_ID :: string
  detail_References :: "string list"
  detail_Title :: string

text \<open>One call of the \<open>filepath.Walk\<close> callback: the path, its \<open>os.FileInfo\<close>, the
  error the walk met there, and what \<open>os.ReadFile(path)\<close> gives.\<close>

record FileInfo =
  info_Name :: string
  IsDir :: bool

record visit =
  path :: string
  info :: FileInfo
  walkErr :: "error option"
  readFile :: "error + bytes"

text \<open>What \<open>walk\<close> and \<open>update\<close> use from outside this file: the source identifier, the
  YAML decoder, and the write operations of \<open>db.Operation\<close>, each running inside the
  transaction it is given.\<close>

record 'tx deps =
  PhpSecurityAdvisories :: string
  yaml_Unmarshal :: "bytes \<Rightarrow> error + RawAdvisory"
  PutDataSource :: "'tx \<Rightarrow> string \<Rightarrow> DataSource \<Rightarrow> error + 'tx"
  PutAdvisoryDetail :: "'tx \<Rightarrow> string \<Rightarrow> string \<Rightarrow> string \<Rightarrow> Advisory \<Rightarrow> error + 'tx"
  PutVulnerabilityDetail :: "'tx \<Rightarrow> string \<Rightarrow> string \<Rightarrow> VulnerabilityDetail \<Rightarrow> error + 'tx"
  PutVulnerabilityID :: "'tx \<Rightarrow> string \<Rightarrow> error + 'tx"

definition vulnerabilityID_of :: "RawAdvisory \<Rightarrow> FileInfo \<Rightarrow> string" where
  "vulnerabilityID_of advisory fi =
     (let vulnerabilityID = Cve advisory in
      if vulnerabilityID = [] then TrimSuffix (info_Name fi) ''.yaml'' else vulnerabilityID)"

text \<open>The callback \<open>walk\<close> passes to \<open>filepath.Walk\<close>.\<close>

definition walk_fn :: "'tx deps \<Rightarrow> visit \<Rightarrow> 'tx \<Rightarrow> error + 'tx" where
  "walk_fn d v tx =
     (case walkErr v of
        Some err \<Rightarrow> Inl err
      | None \<Rightarrow>
          if IsDir (info v) \<or> \<not> HasPrefix (info_Name (info v)) ''CVE-'' then Inr tx
          else (case readFile v of
            Inl err \<Rightarrow> Inl (Wrapped ''failed to read a file'' err)
          | Inr buf \<Rightarrow>
              (case yaml_Unmarshal d buf of
                 Inl err \<Rightarrow> Inl (Wrapped ''failed to unmarshal YAML'' err)
               | Inr advisory \<Rightarrow>
                   (let vulnerabilityID = vulnerabilityID_of advisory (info v);
                        vulnerableVersions =
                          map (\<lambda>(_, branch). Join (Versions branch) '', '') (Branches advisory);
                        a = \<lparr>VulnerableVersions = vulnerableVersions\<rparr>
                    in case PutAdvisoryDetail d tx vulnerabilityID (PhpSecurityAdvisories d)
                              (Reference advisory) a of
                         Inl err \<Rightarrow> Inl (Wrapped ''failed to save php advisory'' err)
                       | Inr tx1 \<Rightarrow>
                           (let vuln = \<lparr>detail_ID = vulnerabilityID,
                                        detail_References = [Link advisory],
                                        detail_Title = Title advisory\<rparr>
                            in case PutVulnerabilityDetail d tx1 vulnerabilityID
                                      (PhpSecurityAdvisories d) vuln of
                                 Inl err \<Rightarrow>
                                   Inl (Wrapped ''failed to save php vulnerability detail'' err)
                               | Inr tx2 \<Rightarrow>
                                   (case PutVulnerabilityID d tx2 vulnerabilityID of
                                      Inl err \<Rightarrow>
                                        Inl (Wrapped ''failed to save the vulnerability ID'' err)
                                    | Inr tx3 \<Rightarrow> Inr tx3))))))"

text \<open>\<open>filepath.Walk\<close>: the callback runs on each visit in turn; the first error it
  returns ends the walk and is the walk's result.\<close>

fun walk :: "'tx deps \<Rightarrow> visit list \<Rightarrow> 'tx \<Rightarrow> error + 'tx" where
  "walk d [] tx = Inr tx"
| "walk d (v # vs) tx =
     (case walk_fn d v tx of Inl err \<Rightarrow> Inl err | Inr tx' \<Rightarrow> walk d vs tx')"

text \<open>The function \<open>update\<close> hands to \<open>BatchUpdate\<close>.\<close>

definition update_fn :: "'tx deps \<Rightarrow> visit list \<Rightarrow> 'tx \<Rightarrow> error + 'tx" where
  "update_fn d visits tx =
     (case PutDataSource d tx (PhpSecurityAdvisories d) source of
        Inl err \<Rightarrow> Inl (Wrapped ''failed to put data source'' err)
      | Inr tx1 \<Rightarrow>
          (case walk d visits tx1 of
             Inl err \<Rightarrow> Inl (Wrapped ''failed to walk compose advisories'' err)
           | Inr tx2 \<Rightarrow> Inr tx2))"

definition update ::
  "'tx deps \<Rightarrow> error option \<Rightarrow> visit list \<Rightarrow> 'tx \<Rightarrow> error option \<times> 'tx" where
  "update d commitErr visits committed =
     (case BatchUpdate commitErr (update_fn d visits) committed of
        (Some err, c) \<Rightarrow> (Some (Wrapped ''batch update failed'' err), c)
      | (None, c) \<Rightarrow> (None, c))"

text \<open>A store that only records the writes it is asked for, in order, and never fails.\<close>

datatype write_op =
    DataSourceW string DataSource
  | AdvisoryDetailW string string string Advisory
  | VulnerabilityDetailW string string VulnerabilityDetail
  | VulnerabilityIDW string

definition recorder :: "string \<Rightarrow> (bytes \<Rightarrow> error + RawAdvisory) \<Rightarrow> (write_op list) deps" where
  "recorder srcName decode =
     \<lparr>PhpSecurityAdvisories = srcName,
      yaml_Unmarshal = decode,
      PutDataSource = (\<lambda>tx b s. Inr (tx @ [DataSourceW b s])),
      PutAdvisoryDetail = (\<lambda>tx i s r a. Inr (tx @ [AdvisoryDetailW i s r a])),
      PutVulnerabilityDetail = (\<lambda>tx i s v. Inr (tx @ [VulnerabilityDetailW i s v])),
      PutVulnerabilityID = (\<lambda>tx i. Inr (tx @ [VulnerabilityIDW i]))\<rparr>"

section \<open>A small store for examples\<close>

text \<open>Three per-source roots under the prefix \<open>src::\<close>, two of which hold the key
  \<open>k\<close> under the nested bucket \<open>adv\<close>, and an unrelated root.\<close>

definition example_tx :: tx where
  "example_tx =
     [(''src::a'', Bkt [(''adv'', Bkt [(''k'', Leaf ''1'')])]),
      (''src::b'', Bkt [(''adv'', Bkt [(''k'', Leaf ''2'')])]),
      (''src::c'', Bkt [(''other'', Bkt [(''k'', Leaf ''3'')])]),
      (''vuln'', Bkt [])]"

text \<open>A provenance lookup that names each root after itself and never fails.\<close>

definition example_gds :: "tx \<Rightarrow> bytes \<Rightarrow> DataSource \<times> error option" where
  "example_gds tx r = (\<lparr>Name = r, URL = []\<rparr>, None)"



text \<open>Options that ask for read-only mode without setting \<open>Enable\<close>; a run of \<open>Init\<close>
  in which nothing fails; a process that has not opened the store, whose file holds the
  example store.\<close>

definition example_options :: BoltOptions where
  "example_options =
     \<lparr>Timeout = 0, NoGrowSync = False, NoFreelistSync = False, PreLoadFreelist = False,
      ReadOnly = True, MmapFlags = 0, InitialMmapSize = 0, PageSize = 0, NoSync = False,
      OpenFile = None, Mlock = False, Enable = False\<rparr>"

definition example_env :: env where
  "example_env = \<lparr>mkdirAll = None, firstOpen = Opens, remove = None, secondOpen = Opens\<rparr>"

definition example_state :: state where
  "example_state = \<lparr>db = None, store_file = Present example_tx, panicOnFault = False\<rparr>"

text \<open>The records \<open>walk\<close> builds from a parsed advisory: its locals \<open>a\<close> and \<open>vuln\<close>.\<close>

definition composer_advisory :: "RawAdvisory \<Rightarrow> Advisory" where
  "composer_advisory advisory =
     \<lparr>VulnerableVersions =
        map (\<lambda>(_, branch). Join (Versions branch) '', '') (Branches advisory)\<rparr>"

definition composer_detail :: "RawAdvisory \<Rightarrow> string \<Rightarrow> VulnerabilityDetail" where
  "composer_detail advisory vulnerabilityID =
     \<lparr>detail_ID = vulnerabilityID, detail_References = [Link advisory],
      detail_Title = Title advisory\<rparr>"

text \<open>The three writes \<open>walk\<close> makes for one advisory file, given the identifier.\<close>

definition writes_for :: "string \<Rightarrow> RawAdvisory \<Rightarrow> string \<Rightarrow> write_op list" where
  "writes_for srcName advisory vid =
     [AdvisoryDetailW vid srcName (Reference advisory)
        \<lparr>VulnerableVersions =
           map (\<lambda>(_, branch). Join (Versions branch) '', '') (Branches advisory)\<rparr>,
      VulnerabilityDetailW vid srcName
        \<lparr>detail_ID = vid, detail_References = [Link advisory], detail_Title = Title advisory\<rparr>,
      VulnerabilityIDW vid]"

text \<open>An advisory directory: the directory itself, an advisory without a \<open>cve\<close> field, a
  file that is not an advisory, an advisory with a \<open>cve\<close> field; and a further advisory
  file that does not parse. The decoder knows the two good files by their content.\<close>

definition example_advisory1 :: RawAdvisory where
  "example_advisory1 =
     \<lparr>Cve = [], Title = ''t1'', Link = ''l1'', Reference = ''composer://p/q'',
      Branches = [(''1.x'', \<lparr>Versions = [''>=1.0'', ''<1.2'']\<rparr>)]\<rparr>"

definition example_advisory2 :: RawAdvisory where
  "example_advisory2 =
     \<lparr>Cve = ''CVE-2020-9999'', Title = ''t2'', Link = ''l2'', Reference = ''composer://r/s'',
      Branches = []\<rparr>"

definition example_yaml :: "bytes \<Rightarrow> error + RawAdvisory" where
  "example_yaml buf =
     (if buf = ''a'' then Inr example_advisory1
      else if buf = ''b'' then Inr example_advisory2
      else Inl (External ''yaml: cannot unmarshal''))"

definition example_visits :: "visit list" where
  "example_visits =
     [\<lparr>path = ''repo'', info = \<lparr>info_Name = ''repo'', IsDir = True\<rparr>, walkErr = None,
       readFile = Inl (External ''is a directory'')\<rparr>,
      \<lparr>path = ''repo/CVE-2019-12139.yaml'',
       info = \<lparr>info_Name = ''CVE-2019-12139.yaml'', IsDir = False\<rparr>, walkErr = None,
       readFile = Inr ''a''\<rparr>,
      \<lparr>path = ''repo/README.md'', info = \<lparr>info_Name = ''README.md'', IsDir = False\<rparr>,
       walkErr = None, readFile = Inr ''readme''\<rparr>,
      \<lparr>path = ''repo/CVE-2020-1.yaml'',
       info = \<lparr>info_Name = ''CVE-2020-1.yaml'', IsDir = False\<rparr>, walkErr = None,
       readFile = Inr ''b''\<rparr>]"

definition example_broken :: visit where
  "example_broken =
     \<lparr>path = ''repo/CVE-2021-2.yaml'',
      info = \<lparr>info_Name = ''CVE-2021-2.yaml'', IsDir = False\<rparr>, walkErr = None,
      readFile = Inr ''not yaml''\<rparr>"

text \<open>A recording store whose vulnerability-ID write fails for one identifier.\<close>

definition example_failing :: "(write_op list) deps" where
  "example_failing =
     (recorder ''php'' example_yaml)
       \<lparr>PutVulnerabilityID :=
          (\<lambda>tx i. if i = ''CVE-2020-9999'' then Inl (External ''no space left on device'')
                   else Inr (tx @ [VulnerabilityIDW i]))\<rparr>"

definition example_log :: "write_op list" where
  "example_log =
     writes_for ''php'' example_advisory1 ''CVE-2019-12139'' @
     writes_for ''php'' example_advisory2 ''CVE-2020-9999''"

section \<open>Facts about byte strings and key order\<close>


lemma copy_make_bytes: "copy (make_bytes (len v)) v = (case v of None \<Rightarrow> [] | Some x \<Rightarrow> x)"
  by (simp add: copy_def make_bytes_def len_def split: option.splits)



lemma bytes_less_trans: "bytes_less a b \<Longrightarrow> bytes_less b c \<Longrightarrow> bytes_less a c"
proof (induction a b arbitrary: c rule: bytes_less.induct)
  case 1
  then show ?case by simp
next
  case (2 y ys)
  then show ?case by (cases c) simp_all
next
  case (3 x xs)
  then show ?case by simp
next
  case (4 x xs y ys)
  then show ?case by (cases c) auto
qed


lemma sorted_keys_tail: "sorted_keys (k # ks) \<Longrightarrow> sorted_keys ks"
  by (cases ks) simp_all

lemma sorted_keys_head_less: "sorted_keys (k # ks) \<Longrightarrow> k' \<in> set ks \<Longrightarrow> bytes_less k k'"
proof (induction ks arbitrary: k)
  case (Cons a ks)
  then show ?case by (auto intro: bytes_less_trans)
qed simp




text \<open>Writes keep the top-level names in key order, so the order is an invariant of
  every store built by \<open>put\<close>.\<close>

lemma bytes_less_total: "\<not> bytes_less a b \<Longrightarrow> a \<noteq> b \<Longrightarrow> bytes_less b a"
proof (induction a b rule: bytes_less.induct)
  case (4 x xs y ys)
  show ?case
  proof (cases "x = y")
    case True
    then have "\<not> bytes_less xs ys" and "xs \<noteq> ys" using "4.prems" by simp_all
    then have "bytes_less ys xs" using "4.IH" by blast
    then show ?thesis using True by simp
  next
    case False
    then have "(of_char x :: nat) \<noteq> of_char y" by (simp add: inj_eq[OF inj_of_char])
    moreover have "\<not> (of_char x :: nat) < of_char y" using "4.prems"(1) by simp
    ultimately have "(of_char y :: nat) < of_char x" by linarith
    then show ?thesis by simp
  qed
qed simp_all

lemma sorted_keys_ConsI:
  "\<forall>k'\<in>set ks. bytes_less k k' \<Longrightarrow> sorted_keys ks \<Longrightarrow> sorted_keys (k # ks)"
  by (cases ks) simp_all

lemma set_store_entry:
  "set (map fst (store_entry k n b)) = insert k (set (map fst b))"
proof (induction b)
  case Nil
  then show ?case by simp
next
  case (Cons e b)
  obtain k' n' where e: "e = (k', n')" by (cases e)
  show ?case using Cons.IH by (simp add: e insert_commute)
qed

lemma store_entry_sorted:
  "sorted_keys (map fst b) \<Longrightarrow> sorted_keys (map fst (store_entry k n b))"
proof (induction b)
  case Nil
  then show ?case by simp
next
  case (Cons e b)
  obtain k' n' where e: "e = (k', n')" by (cases e)
  have s: "sorted_keys (k' # map fst b)" using Cons.prems by (simp add: e)
  have tail: "sorted_keys (map fst b)" using sorted_keys_tail[OF s] .
  have head: "\<forall>x\<in>set (map fst b). bytes_less k' x"
    using sorted_keys_head_less[OF s] by blast
  show ?case
  proof (cases "k = k'")
    case True
    then show ?thesis using s by (simp add: e)
  next
    case False
    show ?thesis
    proof (cases "bytes_less k k'")
      case True
      then show ?thesis using s False by (simp add: e)
    next
      case nl: False
      have kk: "bytes_less k' k" using bytes_less_total[OF nl False] .
      have "\<forall>x\<in>set (map fst (store_entry k n b)). bytes_less k' x"
        unfolding set_store_entry using head kk by simp
      then have "sorted_keys (k' # map fst (store_entry k n b))"
        using Cons.IH[OF tail] by (rule sorted_keys_ConsI)
      then show ?thesis using False nl by (simp add: e)
    qed
  qed
qed

lemma put_keeps_root_sorted:
  assumes "sorted_keys (map fst tx)" and "put marshal tx bktNames key v = Inr tx'"
  shows "sorted_keys (map fst tx')"
proof -
  from assms(2) obtain bkt' where "tx' = store_entry (hd bktNames) (Bkt bkt') tx"
    by (auto simp: put_def split: if_splits sum.splits)
  then show ?thesis using store_entry_sorted[OF assms(1)] by simp
qed

section \<open>Facts about the bulk scan\<close>


lemma descend_root:
  "descend tx (r # nested) = (case Bucket tx r of None \<Rightarrow> None | Some root \<Rightarrow> descend root nested)"
  by simp

lemma forEach_fn_result:
  "forEach_fn src k v vals =
     Inr (vals(k \<mapsto> \<lparr>Source = src, Content = Some (case v of None \<Rightarrow> [] | Some x \<Rightarrow> x)\<rparr>))"
  by (simp add: forEach_fn_def copy_make_bytes)

lemma ForEach_forEach_fn:
  "ForEach b (forEach_fn src) vals =
     Inr (\<lambda>k. case map_of (rev b) k of
                None \<Rightarrow> vals k
              | Some n \<Rightarrow> Some \<lparr>Source = src,
                                Content = Some (case n of Leaf v \<Rightarrow> v | Bkt _ \<Rightarrow> [])\<rparr>)"
proof (induction b arbitrary: vals)
  case Nil
  then show ?case by simp
next
  case (Cons e b)
  obtain k n where e: "e = (k, n)" by (cases e)
  define V where "V = \<lparr>Source = src, Content = Some (case n of Leaf v \<Rightarrow> v | Bkt _ \<Rightarrow> [])\<rparr>"
  have "ForEach (e # b) (forEach_fn src) vals = ForEach b (forEach_fn src) (vals(k \<mapsto> V))"
    unfolding e V_def by (cases n) (simp_all add: forEach_fn_result)
  also have "\<dots> = Inr (\<lambda>k'. case map_of (rev b) k' of
                None \<Rightarrow> (vals(k \<mapsto> V)) k'
              | Some n \<Rightarrow> Some \<lparr>Source = src,
                                Content = Some (case n of Leaf v \<Rightarrow> v | Bkt _ \<Rightarrow> [])\<rparr>)"
    by (rule Cons.IH)
  also have "\<dots> = Inr (\<lambda>k'. case map_of (rev (e # b)) k' of
                None \<Rightarrow> vals k'
              | Some n \<Rightarrow> Some \<lparr>Source = src,
                                Content = Some (case n of Leaf v \<Rightarrow> v | Bkt _ \<Rightarrow> [])\<rparr>)"
    unfolding e V_def by (auto simp: fun_eq_iff map_add_def split: option.splits)
  finally show ?case .
qed

lemma forEach_roots_total: "\<exists>m. forEach_roots gds tx nested rs vals = Inr m"
proof (induction rs arbitrary: vals)
  case Nil
  then show ?case by simp
next
  case (Cons r rs)
  show ?case
    by (simp add: ForEach_forEach_fn Cons.IH Let_def split: option.splits)
qed

lemma forEach_roots_filter:
  "forEach_roots gds tx nested rs vals =
   forEach_roots gds tx nested (filter (\<lambda>r. descend tx (r # nested) \<noteq> None) rs) vals"
proof (induction rs arbitrary: vals)
  case Nil
  then show ?case by simp
next
  case (Cons r rs)
  show ?case
    by (simp add: ForEach_forEach_fn Cons.IH Let_def split: option.splits)
qed





lemma get_resolved:
  "bktNames \<noteq> [] \<Longrightarrow>
   get tx bktNames key =
     (case descend tx bktNames of
        None \<Rightarrow> Inr None
      | Some b \<Rightarrow> Inr (Some (case Get b key of None \<Rightarrow> [] | Some v \<Rightarrow> v)))"
  by (cases bktNames)
     (simp_all add: get_def get_view_def copy_make_bytes Let_def split: option.splits)


section \<open>Facts about the ingestion run\<close>

lemma walk_append:
  "walk d (pre @ post) tx =
     (case walk d pre tx of Inl e \<Rightarrow> Inl e | Inr t \<Rightarrow> walk d post t)"
  by (induction pre arbitrary: tx) (simp_all split: sum.splits)

lemma update_result:
  "update d commitErr visits committed =
     (case update_fn d visits committed of
        Inl e \<Rightarrow> (Some (Wrapped ''batch update failed'' (Wrapped ''error in batch update'' e)),
                  committed)
      | Inr tx' \<Rightarrow>
          (case commitErr of
             Some e \<Rightarrow>
               (Some (Wrapped ''batch update failed'' (Wrapped ''error in batch update'' e)),
                committed)
           | None \<Rightarrow> (None, tx')))"
  by (simp add: update_def BatchUpdate_def Batch_def Update_def split: sum.splits option.splits)

lemma update_fails_iff:
  "fst (update d commitErr visits committed) \<noteq> None \<longleftrightarrow>
     (\<exists>e. update_fn d visits committed = Inl e) \<or> commitErr \<noteq> None"
  by (auto simp: update_result split: sum.splits option.splits)

lemma walk_fn_walkErr: "walkErr v = Some err \<Longrightarrow> walk_fn d v t = Inl err"
  by (simp add: walk_fn_def)

lemma walk_fn_read_fails:
  "walkErr v = None \<Longrightarrow> \<not> IsDir (info v) \<Longrightarrow> HasPrefix (info_Name (info v)) ''CVE-'' \<Longrightarrow>
   readFile v = Inl err \<Longrightarrow> walk_fn d v t = Inl (Wrapped ''failed to read a file'' err)"
  by (simp add: walk_fn_def)

lemma walk_fn_parse_fails:
  "walkErr v = None \<Longrightarrow> \<not> IsDir (info v) \<Longrightarrow> HasPrefix (info_Name (info v)) ''CVE-'' \<Longrightarrow>
   readFile v = Inr buf \<Longrightarrow> yaml_Unmarshal d buf = Inl err \<Longrightarrow>
   walk_fn d v t = Inl (Wrapped ''failed to unmarshal YAML'' err)"
  by (simp add: walk_fn_def)

lemma walk_fn_writes:
  "walkErr v = None \<Longrightarrow> \<not> IsDir (info v) \<Longrightarrow> HasPrefix (info_Name (info v)) ''CVE-'' \<Longrightarrow>
   readFile v = Inr buf \<Longrightarrow> yaml_Unmarshal d buf = Inr advisory \<Longrightarrow>
   walk_fn d v t =
     (case PutAdvisoryDetail d t (vulnerabilityID_of advisory (info v)) (PhpSecurityAdvisories d)
             (Reference advisory) (composer_advisory advisory) of
        Inl err \<Rightarrow> Inl (Wrapped ''failed to save php advisory'' err)
      | Inr tx1 \<Rightarrow>
          (case PutVulnerabilityDetail d tx1 (vulnerabilityID_of advisory (info v))
                  (PhpSecurityAdvisories d)
                  (composer_detail advisory (vulnerabilityID_of advisory (info v))) of
             Inl err \<Rightarrow> Inl (Wrapped ''failed to save php vulnerability detail'' err)
           | Inr tx2 \<Rightarrow>
               (case PutVulnerabilityID d tx2 (vulnerabilityID_of advisory (info v)) of
                  Inl err \<Rightarrow> Inl (Wrapped ''failed to save the vulnerability ID'' err)
                | Inr tx3 \<Rightarrow> Inr tx3)))"
  by (simp add: walk_fn_def composer_advisory_def composer_detail_def Let_def
           split: sum.splits)

lemma walk_fails_at:
  "walk d pre t = Inr t0 \<Longrightarrow> walk_fn d v t0 = Inl err \<Longrightarrow> walk d (pre @ v # post) t = Inl err"
  by (simp add: walk_append)

lemma walk_fails_always:
  "v \<in> set visits \<Longrightarrow> \<forall>t. \<exists>err. walk_fn d v t = Inl err \<Longrightarrow> \<exists>err. walk d visits t = Inl err"
proof (induction visits arbitrary: t)
  case Nil
  then show ?case by simp
next
  case (Cons x xs)
  show ?case
  proof (cases "walk_fn d x t")
    case (Inl err)
    then show ?thesis by simp
  next
    case (Inr t')
    have "x \<noteq> v"
    proof
      assume "x = v"
      then obtain err where "walk_fn d x t = Inl err" using Cons.prems(2) by blast
      then show False using Inr by simp
    qed
    then have "v \<in> set xs" using Cons.prems(1) by simp
    then obtain err where "walk d xs t' = Inl err" using Cons.IH Cons.prems(2) by blast
    then show ?thesis using Inr by simp
  qed
qed

lemma update_fails_if_walk_fails:
  "\<forall>t. \<exists>err. walk d visits t = Inl err \<Longrightarrow> fst (update d commitErr visits committed) \<noteq> None"
proof -
  assume w: "\<forall>t. \<exists>err. walk d visits t = Inl err"
  have "\<exists>e. update_fn d visits committed = Inl e"
  proof (cases "PutDataSource d committed (PhpSecurityAdvisories d) source")
    case (Inl e)
    then show ?thesis by (simp add: update_fn_def)
  next
    case (Inr tx1)
    obtain err where "walk d visits tx1 = Inl err" using w by blast
    then show ?thesis using Inr by (simp add: update_fn_def)
  qed
  then show ?thesis using update_fails_iff[of d commitErr visits committed] by blast
qed

lemma walk_fn_recorder:
  "walk_fn (recorder srcName decode) v log0 = Inr log \<Longrightarrow>
   log = log0 @
     (if \<not> IsDir (info v) \<and> HasPrefix (info_Name (info v)) ''CVE-'' then
        (case readFile v of
           Inl _ \<Rightarrow> []
         | Inr buf \<Rightarrow>
             (case decode buf of
                Inl _ \<Rightarrow> []
              | Inr advisory \<Rightarrow>
                  writes_for srcName advisory
                    (if Cve advisory \<noteq> [] then Cve advisory
                     else TrimSuffix (info_Name (info v)) ''.yaml'')))
      else [])"
  by (auto simp: walk_fn_def recorder_def writes_for_def vulnerabilityID_of_def Let_def
           split: option.splits sum.splits if_splits)

lemma TrimSuffix_restores:
  "HasSuffix name suffix \<Longrightarrow> TrimSuffix name suffix @ suffix = name"
  by (simp add: TrimSuffix_def HasSuffix_def) (metis append_take_drop_id)

lemma example_walk:
  "walk (recorder ''php'' example_yaml) example_visits log0 = Inr (log0 @ example_log)"
  by (simp add: example_visits_def example_yaml_def example_log_def walk_fn_def recorder_def
        writes_for_def vulnerabilityID_of_def TrimSuffix_def HasSuffix_def
        example_advisory1_def example_advisory2_def Let_def)

section \<open>The claims\<close>



text \<open>
  C2. For a non-empty chain, when the chain does not resolve (some bucket of it is
  missing) or it resolves and the key is absent, \<open>get\<close> returns a result of length 0
  and no error. A scan with at least one nested name returns no error, and its result
  is that of scanning only the roots whose nested path fully exists: the others leave
  the result map as it is.
\<close>

theorem missing_is_empty:
  assumes "bktNames \<noteq> []"
    and "descend tx bktNames = None \<or>
         (\<exists>b. descend tx bktNames = Some b \<and> map_of b key = None)"
    and "2 \<le> length spec"
  shows "(\<exists>v. get tx bktNames key = Inr v \<and> len v = 0) \<and>
         (\<exists>m. forEach gds tx spec = Inr m \<and>
              forEach_roots gds tx (tl spec)
                (filter (\<lambda>r. descend tx (r # tl spec) \<noteq> None) (rootBuckets_of tx (hd spec)))
                Map.empty = Inr m)"
proof -
  have g: "\<exists>v. get tx bktNames key = Inr v \<and> len v = 0"
    using assms(1,2) by (auto simp: get_resolved Get_def len_def)
  obtain m where m: "forEach_roots gds tx (tl spec) (rootBuckets_of tx (hd spec)) Map.empty = Inr m"
    using forEach_roots_total by blast
  have "forEach gds tx spec = Inr m" using assms(3) m by (simp add: forEach_def Let_def)
  moreover have "forEach_roots gds tx (tl spec)
                (filter (\<lambda>r. descend tx (r # tl spec) \<noteq> None) (rootBuckets_of tx (hd spec)))
                Map.empty = Inr m"
    using m forEach_roots_filter[of gds tx "tl spec" "rootBuckets_of tx (hd spec)" Map.empty]
    by simp
  ultimately show ?thesis using g by blast
qed

theorem missing_is_empty_witness:
  "(\<exists>v. get example_tx [''src::c'', ''adv''] ''k'' = Inr v \<and> len v = 0) \<and>
   (\<exists>m. forEach example_gds example_tx [''src::'', ''adv''] = Inr m \<and>
        forEach_roots example_gds example_tx [''adv''] [''src::a'', ''src::b''] Map.empty = Inr m)"
proof -
  have h1: "[''src::c'', ''adv''] \<noteq> []" by simp
  have h2: "descend example_tx [''src::c'', ''adv''] = None \<or>
            (\<exists>b. descend example_tx [''src::c'', ''adv''] = Some b \<and> map_of b ''k'' = None)"
    by (simp add: example_tx_def Bucket_def)
  have h3: "2 \<le> length [''src::'', ''adv'']" by simp
  have f: "filter (\<lambda>r. descend example_tx (r # tl [''src::'', ''adv'']) \<noteq> None)
             (rootBuckets_of example_tx (hd [''src::'', ''adv''])) = [''src::a'', ''src::b'']"
    by (simp add: example_tx_def rootBuckets_of_def Seek_def Bucket_def)
  show ?thesis
    using missing_is_empty[OF h1 h2 h3, of example_gds] f by simp
qed

text \<open>
  C5. With an empty list of bucket names, \<open>put\<close> returns the error "empty bucket name"
  and \<open>get\<close> returns that error wrapped, whatever the key, the value and the store:
  neither treats the empty chain as missing data.
\<close>

theorem empty_chain_is_error:
  "put marshal tx [] key v = Inl EmptyBucketName \<and>
   get tx [] key = Inl (Wrapped ''failed to get data from db'' EmptyBucketName)"
  by (simp add: put_def get_def get_view_def)

text \<open>
  C6. A chain spec of fewer than two names (none, or a bare root) makes \<open>forEach\<close>
  return the error "bucket must be nested" and no result map.
\<close>

theorem forEach_requires_nested:
  "length bktNames < 2 \<Longrightarrow> forEach gds tx bktNames = Inl (BucketMustBeNested bktNames)"
  by (simp add: forEach_def)

theorem forEach_requires_nested_witness:
  "length [''vuln''] < 2 \<and>
   forEach example_gds example_tx [''vuln''] = Inl (BucketMustBeNested [''vuln''])"
proof -
  have h: "length [''vuln''] < 2" by simp
  show ?thesis using forEach_requires_nested[OF h, of example_gds example_tx] h by simp
qed





text \<open>
  C3. When the first open of the store faults during \<open>Init\<close> (the directory having been
  made), the deferred recovery removes the store file and opens the path again with
  default options, and nothing of the old file is kept:
  \<^item> when \<open>Init\<close> returns no error, the file was removed, and the handle and the file
    hold the empty store, under default options, whatever the file held before;
  \<^item> when \<open>Init\<close> returns an error, it is the error of the removal (the file and the
    handle are as they were) or, the file having been removed, the error of the second
    open (no handle, and no store in the file);
  \<^item> conversely, a removal and a second open that go through make \<open>Init\<close> succeed, and
    a failing removal or second open is reported;
  \<^item> \<open>Init\<close> panics only when the second open faults as well.
\<close>

theorem Init_fault_recreates_store:
  assumes "mkdirAll e = None" and "firstOpen e = Fault"
  shows "(\<forall>st'. Init e st options = Returns (None, st') \<longrightarrow>
            remove e = None \<and> secondOpen e = Opens \<and>
            db st' = Some \<lparr>contents = [], in_force = DefaultOptions\<rparr> \<and>
            store_file st' = Present []) \<and>
         (\<forall>err st'. Init e st options = Returns (Some err, st') \<longrightarrow>
            (remove e = Some err \<and> db st' = db st \<and>
             store_file st' = opened_file (store_file st)) \<or>
            (remove e = None \<and>
             (secondOpen e = CannotOpenFile err \<or> secondOpen e = OpenFails err) \<and>
             db st' = None \<and> (\<forall>t. store_file st' \<noteq> Present t))) \<and>
         (remove e = None \<and> secondOpen e = Opens \<longrightarrow>
            Init e st options =
              Returns (None, st\<lparr>db := Some \<lparr>contents = [], in_force = DefaultOptions\<rparr>,
                                 store_file := Present [], panicOnFault := False\<rparr>)) \<and>
         (\<forall>err. remove e = Some err \<or>
                (remove e = None \<and>
                 (secondOpen e = CannotOpenFile err \<or> secondOpen e = OpenFails err)) \<longrightarrow>
            (\<exists>st'. Init e st options = Returns (Some err, st'))) \<and>
         (Init e st options = Panics \<longleftrightarrow> remove e = None \<and> secondOpen e = Fault)"
proof -
  have i: "Init e st options =
             Init_recover e (st\<lparr>panicOnFault := True, store_file := opened_file (store_file st)\<rparr>)"
    using assms by (simp add: Init_def bolt_Open_def Let_def)
  have r: "os_Remove e (opened_file (store_file st)) =
             (case remove e of
                Some err \<Rightarrow> (Some err, opened_file (store_file st))
              | None \<Rightarrow> (None, Absent))"
    by (cases "store_file st"; cases "remove e") (simp_all add: os_Remove_def opened_file_def)
  have o: "opened_file Absent = Blank" by (simp add: opened_file_def)
  show ?thesis
  proof (cases "remove e")
    case (Some rerr)
    then have "Init e st options =
                 Returns (Some rerr, st\<lparr>panicOnFault := True,
                                          store_file := opened_file (store_file st)\<rparr>)"
      by (simp add: i Init_recover_def r)
    then show ?thesis using Some by simp
  next
    case None
    show ?thesis
    proof (cases "secondOpen e")
      case (CannotOpenFile oerr)
      then have "Init e st options =
                   Returns (Some oerr, st\<lparr>db := None, store_file := Absent,
                                             panicOnFault := False\<rparr>)"
        using None by (simp add: i Init_recover_def r bolt_Open_def)
      then show ?thesis using None CannotOpenFile by simp
    next
      case Fault
      then have "Init e st options = Panics"
        using None by (simp add: i Init_recover_def r bolt_Open_def)
      then show ?thesis using None Fault by simp
    next
      case (OpenFails oerr)
      then have "Init e st options =
                   Returns (Some oerr, st\<lparr>db := None, store_file := Blank,
                                             panicOnFault := False\<rparr>)"
        using None by (simp add: i Init_recover_def r bolt_Open_def o)
      then show ?thesis using None OpenFails by simp
    next
      case Opens
      then have "Init e st options =
                   Returns (None, st\<lparr>db := Some \<lparr>contents = [], in_force = DefaultOptions\<rparr>,
                                      store_file := Present [], panicOnFault := False\<rparr>)"
        using None
        by (simp add: i Init_recover_def r bolt_Open_def o DefaultOptions_def
              zero_bolt_Options_def)
      then show ?thesis using None Opens by simp
    qed
  qed
qed

theorem Init_fault_recreates_store_witness:
  "Init (example_env\<lparr>firstOpen := Fault\<rparr>) example_state example_options =
     Returns (None, \<lparr>db = Some \<lparr>contents = [], in_force = DefaultOptions\<rparr>,
                     store_file = Present [], panicOnFault = False\<rparr>) \<and>
   (\<exists>st'. Init (example_env\<lparr>firstOpen := Fault, remove := Some (External ''permission denied'')\<rparr>)
            example_state example_options
          = Returns (Some (External ''permission denied''), st'))"
proof -
  have h1: "mkdirAll (example_env\<lparr>firstOpen := Fault\<rparr>) = None" by (simp add: example_env_def)
  have h2: "firstOpen (example_env\<lparr>firstOpen := Fault\<rparr>) = Fault" by simp
  have h3: "remove (example_env\<lparr>firstOpen := Fault\<rparr>) = None \<and>
            secondOpen (example_env\<lparr>firstOpen := Fault\<rparr>) = Opens"
    by (simp add: example_env_def)
  have g1: "mkdirAll (example_env\<lparr>firstOpen := Fault,
                       remove := Some (External ''permission denied'')\<rparr>) = None"
    by (simp add: example_env_def)
  have g2: "firstOpen (example_env\<lparr>firstOpen := Fault,
                        remove := Some (External ''permission denied'')\<rparr>) = Fault"
    by simp
  have g3: "remove (example_env\<lparr>firstOpen := Fault,
                     remove := Some (External ''permission denied'')\<rparr>)
              = Some (External ''permission denied'')"
    by simp
  have a: "Init (example_env\<lparr>firstOpen := Fault\<rparr>) example_state example_options =
     Returns (None, \<lparr>db = Some \<lparr>contents = [], in_force = DefaultOptions\<rparr>,
                     store_file = Present [], panicOnFault = False\<rparr>)"
    using Init_fault_recreates_store[OF h1 h2, of example_state example_options] h3
    by (simp add: example_state_def)
  have b: "\<exists>st'. Init (example_env\<lparr>firstOpen := Fault,
                                   remove := Some (External ''permission denied'')\<rparr>)
            example_state example_options
          = Returns (Some (External ''permission denied''), st')"
    using Init_fault_recreates_store[OF g1 g2, of example_state example_options] g3
    by blast
  show ?thesis using a b by (rule conjI)
qed

text \<open>
  C4. One run of \<open>update\<close> hands the data-source write and the whole walk to
  \<open>BatchUpdate\<close> as one function, so that the run is all or nothing:
  \<^item> when \<open>update\<close> returns an error (a step failed, or the commit did) the committed
    store is what it was before the run;
  \<^item> \<open>update\<close> returns an error when the data-source write fails;
  \<^item> it returns an error when, for any visit of the walk, the walk reports an error
    there, or the visit is an advisory file (not a directory, name starting with
    \<open>CVE-\<close>) and reading it fails, or parsing what was read fails;
  \<^item> it returns an error when, for an advisory file that was read and parsed, one of
    its three writes fails: the advisory write on the transaction as the visits before
    it left it, the detail write on the transaction the advisory write returned, or the
    identifier write on the one the detail write returned; and also when one of these
    writes fails on every transaction, wherever in the walk the file is met;
  \<^item> when the data-source write and the walk go through, the outcome is that of the
    commit: the committed store is the transaction all the writes produced, in order,
    or, when the commit fails, the store as it was.
\<close>

theorem update_all_or_nothing:
  "(fst (update d commitErr visits committed) \<noteq> None \<longrightarrow>
      snd (update d commitErr visits committed) = committed) \<and>
   (PutDataSource d committed (PhpSecurityAdvisories d) source = Inl e \<longrightarrow>
      fst (update d commitErr visits committed) \<noteq> None) \<and>
   (v \<in> set visits \<and> walkErr v = Some e \<longrightarrow>
      fst (update d commitErr visits committed) \<noteq> None) \<and>
   (v \<in> set visits \<and> walkErr v = None \<and> \<not> IsDir (info v) \<and>
    HasPrefix (info_Name (info v)) ''CVE-'' \<and> readFile v = Inl e \<longrightarrow>
      fst (update d commitErr visits committed) \<noteq> None) \<and>
   (v \<in> set visits \<and> walkErr v = None \<and> \<not> IsDir (info v) \<and>
    HasPrefix (info_Name (info v)) ''CVE-'' \<and> readFile v = Inr buf \<and>
    yaml_Unmarshal d buf = Inl e \<longrightarrow>
      fst (update d commitErr visits committed) \<noteq> None) \<and>
   (PutDataSource d committed (PhpSecurityAdvisories d) source = Inr tx1 \<and>
    visits = pre @ v # post \<and> walk d pre tx1 = Inr t0 \<and>
    walkErr v = None \<and> \<not> IsDir (info v) \<and> HasPrefix (info_Name (info v)) ''CVE-'' \<and>
    readFile v = Inr buf \<and> yaml_Unmarshal d buf = Inr advisory \<and>
    (PutAdvisoryDetail d t0 (vulnerabilityID_of advisory (info v)) (PhpSecurityAdvisories d)
       (Reference advisory) (composer_advisory advisory) = Inl e \<or>
     PutAdvisoryDetail d t0 (vulnerabilityID_of advisory (info v)) (PhpSecurityAdvisories d)
       (Reference advisory) (composer_advisory advisory) = Inr t1 \<and>
     (PutVulnerabilityDetail d t1 (vulnerabilityID_of advisory (info v))
        (PhpSecurityAdvisories d)
        (composer_detail advisory (vulnerabilityID_of advisory (info v))) = Inl e \<or>
      PutVulnerabilityDetail d t1 (vulnerabilityID_of advisory (info v))
        (PhpSecurityAdvisories d)
        (composer_detail advisory (vulnerabilityID_of advisory (info v))) = Inr t2 \<and>
      PutVulnerabilityID d t2 (vulnerabilityID_of advisory (info v)) = Inl e)) \<longrightarrow>
      fst (update d commitErr visits committed) \<noteq> None) \<and>
   (v \<in> set visits \<and> walkErr v = None \<and> \<not> IsDir (info v) \<and>
    HasPrefix (info_Name (info v)) ''CVE-'' \<and> readFile v = Inr buf \<and>
    yaml_Unmarshal d buf = Inr advisory \<and>
    ((\<forall>t. \<exists>err. PutAdvisoryDetail d t (vulnerabilityID_of advisory (info v))
                  (PhpSecurityAdvisories d) (Reference advisory)
                  (composer_advisory advisory) = Inl err) \<or>
     (\<forall>t. \<exists>err. PutVulnerabilityDetail d t (vulnerabilityID_of advisory (info v))
                  (PhpSecurityAdvisories d)
                  (composer_detail advisory (vulnerabilityID_of advisory (info v))) = Inl err) \<or>
     (\<forall>t. \<exists>err. PutVulnerabilityID d t (vulnerabilityID_of advisory (info v)) = Inl err)) \<longrightarrow>
      fst (update d commitErr visits committed) \<noteq> None) \<and>
   (PutDataSource d committed (PhpSecurityAdvisories d) source = Inr tx1 \<and>
    walk d visits tx1 = Inr tx3 \<longrightarrow>
      (commitErr = None \<longrightarrow> update d commitErr visits committed = (None, tx3)) \<and>
      (commitErr \<noteq> None \<longrightarrow>
         fst (update d commitErr visits committed) \<noteq> None \<and>
         snd (update d commitErr visits committed) = committed))"
proof -
  let ?u = "update d commitErr visits committed"
  let ?vid = "vulnerabilityID_of advisory (info v)"
  have c1: "fst ?u \<noteq> None \<longrightarrow> snd ?u = committed"
    by (simp add: update_result split: sum.splits option.splits)
  have c2: "PutDataSource d committed (PhpSecurityAdvisories d) source = Inl e \<longrightarrow>
              fst ?u \<noteq> None"
    by (simp add: update_result update_fn_def)
  have always: "fst ?u \<noteq> None"
    if mem: "v \<in> set visits" and fails: "\<forall>t. \<exists>err. walk_fn d v t = Inl err"
  proof -
    have "\<forall>t. \<exists>err. walk d visits t = Inl err"
      using walk_fails_always[OF mem fails] by blast
    then show ?thesis by (rule update_fails_if_walk_fails)
  qed
  have c3: "v \<in> set visits \<and> walkErr v = Some e \<longrightarrow> fst ?u \<noteq> None"
  proof (intro impI, elim conjE)
    assume mem: "v \<in> set visits" and w: "walkErr v = Some e"
    have "\<forall>t. \<exists>err. walk_fn d v t = Inl err"
      by (simp add: walk_fn_walkErr[OF w])
    then show "fst ?u \<noteq> None" by (rule always[OF mem])
  qed
  have c4: "v \<in> set visits \<and> walkErr v = None \<and> \<not> IsDir (info v) \<and>
    HasPrefix (info_Name (info v)) ''CVE-'' \<and> readFile v = Inl e \<longrightarrow> fst ?u \<noteq> None"
  proof (intro impI, elim conjE)
    assume mem: "v \<in> set visits"
      and f: "walkErr v = None" "\<not> IsDir (info v)" "HasPrefix (info_Name (info v)) ''CVE-''"
             "readFile v = Inl e"
    have "\<forall>t. \<exists>err. walk_fn d v t = Inl err"
      by (simp add: walk_fn_read_fails[OF f])
    then show "fst ?u \<noteq> None" by (rule always[OF mem])
  qed
  have c5: "v \<in> set visits \<and> walkErr v = None \<and> \<not> IsDir (info v) \<and>
    HasPrefix (info_Name (info v)) ''CVE-'' \<and> readFile v = Inr buf \<and> yaml_Unmarshal d buf = Inl e \<longrightarrow>
              fst ?u \<noteq> None"
  proof (intro impI, elim conjE)
    assume mem: "v \<in> set visits"
      and f: "walkErr v = None" "\<not> IsDir (info v)" "HasPrefix (info_Name (info v)) ''CVE-''"
             "readFile v = Inr buf" "yaml_Unmarshal d buf = Inl e"
    have "\<forall>t. \<exists>err. walk_fn d v t = Inl err"
      by (simp add: walk_fn_parse_fails[OF f])
    then show "fst ?u \<noteq> None" by (rule always[OF mem])
  qed
  have c6: "PutDataSource d committed (PhpSecurityAdvisories d) source = Inr tx1 \<and>
    visits = pre @ v # post \<and> walk d pre tx1 = Inr t0 \<and> walkErr v = None \<and> \<not> IsDir (info v) \<and>
    HasPrefix (info_Name (info v)) ''CVE-'' \<and>
    readFile v = Inr buf \<and> yaml_Unmarshal d buf = Inr advisory \<and>
    (PutAdvisoryDetail d t0 ?vid (PhpSecurityAdvisories d)
       (Reference advisory) (composer_advisory advisory) = Inl e \<or>
     PutAdvisoryDetail d t0 ?vid (PhpSecurityAdvisories d)
       (Reference advisory) (composer_advisory advisory) = Inr t1 \<and>
     (PutVulnerabilityDetail d t1 ?vid (PhpSecurityAdvisories d)
        (composer_detail advisory ?vid) = Inl e \<or>
      PutVulnerabilityDetail d t1 ?vid (PhpSecurityAdvisories d)
        (composer_detail advisory ?vid) = Inr t2 \<and>
      PutVulnerabilityID d t2 ?vid = Inl e)) \<longrightarrow>
      fst ?u \<noteq> None"
  proof (intro impI, elim conjE)
    assume ds: "PutDataSource d committed (PhpSecurityAdvisories d) source = Inr tx1"
      and vs: "visits = pre @ v # post" and pre: "walk d pre tx1 = Inr t0"
      and f: "walkErr v = None" "\<not> IsDir (info v)" "HasPrefix (info_Name (info v)) ''CVE-''"
             "readFile v = Inr buf" "yaml_Unmarshal d buf = Inr advisory"
      and w: "PutAdvisoryDetail d t0 ?vid (PhpSecurityAdvisories d)
       (Reference advisory) (composer_advisory advisory) = Inl e \<or>
     PutAdvisoryDetail d t0 ?vid (PhpSecurityAdvisories d)
       (Reference advisory) (composer_advisory advisory) = Inr t1 \<and>
     (PutVulnerabilityDetail d t1 ?vid (PhpSecurityAdvisories d)
        (composer_detail advisory ?vid) = Inl e \<or>
      PutVulnerabilityDetail d t1 ?vid (PhpSecurityAdvisories d)
        (composer_detail advisory ?vid) = Inr t2 \<and>
      PutVulnerabilityID d t2 ?vid = Inl e)"
    have "\<exists>err. walk_fn d v t0 = Inl err"
      using w by (auto simp: walk_fn_writes[OF f])
    then obtain err where "walk d visits tx1 = Inl err"
      using walk_fails_at[OF pre] vs by blast
    then have "\<exists>e'. update_fn d visits committed = Inl e'"
      using ds by (simp add: update_fn_def)
    then show "fst ?u \<noteq> None"
      using update_fails_iff[of d commitErr visits committed] by blast
  qed
  have c7: "v \<in> set visits \<and> walkErr v = None \<and> \<not> IsDir (info v) \<and>
    HasPrefix (info_Name (info v)) ''CVE-'' \<and> readFile v = Inr buf \<and>
    yaml_Unmarshal d buf = Inr advisory \<and>
    ((\<forall>t. \<exists>err. PutAdvisoryDetail d t ?vid
                  (PhpSecurityAdvisories d) (Reference advisory)
                  (composer_advisory advisory) = Inl err) \<or>
     (\<forall>t. \<exists>err. PutVulnerabilityDetail d t ?vid
                  (PhpSecurityAdvisories d)
                  (composer_detail advisory ?vid) = Inl err) \<or>
     (\<forall>t. \<exists>err. PutVulnerabilityID d t ?vid = Inl err)) \<longrightarrow>
      fst ?u \<noteq> None"
  proof (intro impI, elim conjE)
    assume mem: "v \<in> set visits"
      and f: "walkErr v = None" "\<not> IsDir (info v)" "HasPrefix (info_Name (info v)) ''CVE-''"
             "readFile v = Inr buf" "yaml_Unmarshal d buf = Inr advisory"
      and w: "(\<forall>t. \<exists>err. PutAdvisoryDetail d t ?vid
                  (PhpSecurityAdvisories d) (Reference advisory)
                  (composer_advisory advisory) = Inl err) \<or>
     (\<forall>t. \<exists>err. PutVulnerabilityDetail d t ?vid
                  (PhpSecurityAdvisories d)
                  (composer_detail advisory ?vid) = Inl err) \<or>
     (\<forall>t. \<exists>err. PutVulnerabilityID d t ?vid = Inl err)"
    have "\<forall>t. \<exists>err. walk_fn d v t = Inl err"
    proof
      fix t
      show "\<exists>err. walk_fn d v t = Inl err"
        using w unfolding walk_fn_writes[OF f]
        by (auto split: sum.splits) (metis sum.distinct(1))+
    qed
    then show "fst ?u \<noteq> None" by (rule always[OF mem])
  qed
  have c8: "PutDataSource d committed (PhpSecurityAdvisories d) source = Inr tx1 \<and>
    walk d visits tx1 = Inr tx3 \<longrightarrow>
      (commitErr = None \<longrightarrow> ?u = (None, tx3)) \<and>
      (commitErr \<noteq> None \<longrightarrow> fst ?u \<noteq> None \<and> snd ?u = committed)"
    by (auto simp: update_result update_fn_def split: option.splits)
  show ?thesis by (intro conjI c1 c2 c3 c4 c5 c6 c7 c8)
qed

theorem update_all_or_nothing_witness:
  "fst (update (recorder ''php'' example_yaml) None (example_visits @ [example_broken]) [])
     \<noteq> None \<and>
   snd (update (recorder ''php'' example_yaml) None (example_visits @ [example_broken]) []) = [] \<and>
   fst (update example_failing None example_visits []) \<noteq> None \<and>
   snd (update example_failing None example_visits []) = [] \<and>
   update (recorder ''php'' example_yaml) None example_visits []
     = (None, [DataSourceW ''php'' source] @ example_log)"
proof -
  let ?d = "recorder ''php'' example_yaml"
  let ?v = "example_visits ! 3"
  note broken = update_all_or_nothing[where d = ?d and commitErr = None
            and visits = "example_visits @ [example_broken]" and committed = "[]"
            and v = example_broken and buf = "''not yaml''"
            and e = "External ''yaml: cannot unmarshal''"]
  note failing = update_all_or_nothing[where d = example_failing and commitErr = None
            and visits = example_visits and committed = "[]"
            and v = ?v and buf = "''b''" and advisory = example_advisory2]
  note whole = update_all_or_nothing[where d = ?d and commitErr = None and visits = example_visits
            and committed = "[]" and ?tx1.0 = "[DataSourceW ''php'' source]"
            and ?tx3.0 = "[DataSourceW ''php'' source] @ example_log"]
  have b1: "example_broken \<in> set (example_visits @ [example_broken])" by simp
  have b2: "walkErr example_broken = None \<and> \<not> IsDir (info example_broken) \<and>
            HasPrefix (info_Name (info example_broken)) ''CVE-'' \<and>
            readFile example_broken = Inr ''not yaml'' \<and>
            yaml_Unmarshal ?d ''not yaml'' = Inl (External ''yaml: cannot unmarshal'')"
    by (simp add: example_broken_def recorder_def example_yaml_def)
  have bad: "fst (update ?d None (example_visits @ [example_broken]) []) \<noteq> None"
    by (rule mp[OF broken[THEN conjunct2, THEN conjunct2, THEN conjunct2, THEN conjunct2,
                          THEN conjunct1] conjI[OF b1 b2]])
  have unchanged: "snd (update ?d None (example_visits @ [example_broken]) []) = []"
    by (rule mp[OF broken[THEN conjunct1] bad])
  have f1: "?v \<in> set example_visits" by (simp add: example_visits_def)
  have f3: "\<forall>t. \<exists>err. PutVulnerabilityID example_failing t
                         (vulnerabilityID_of example_advisory2 (info ?v)) = Inl err"
    by (simp add: example_failing_def recorder_def vulnerabilityID_of_def example_advisory2_def)
  have f2: "walkErr ?v = None \<and> \<not> IsDir (info ?v) \<and> HasPrefix (info_Name (info ?v)) ''CVE-'' \<and>
            readFile ?v = Inr ''b'' \<and> yaml_Unmarshal example_failing ''b'' = Inr example_advisory2"
    by (simp add: example_visits_def example_failing_def recorder_def example_yaml_def)
  have fbad: "fst (update example_failing None example_visits []) \<noteq> None"
  proof (rule mp[OF failing[THEN conjunct2, THEN conjunct2, THEN conjunct2, THEN conjunct2,
                            THEN conjunct2, THEN conjunct2, THEN conjunct1]])
    show "?v \<in> set example_visits \<and> walkErr ?v = None \<and> \<not> IsDir (info ?v) \<and>
      HasPrefix (info_Name (info ?v)) ''CVE-'' \<and> readFile ?v = Inr ''b'' \<and>
      yaml_Unmarshal example_failing ''b'' = Inr example_advisory2 \<and>
      ((\<forall>t. \<exists>err. PutAdvisoryDetail example_failing t
                    (vulnerabilityID_of example_advisory2 (info ?v))
                    (PhpSecurityAdvisories example_failing) (Reference example_advisory2)
                    (composer_advisory example_advisory2) = Inl err) \<or>
       (\<forall>t. \<exists>err. PutVulnerabilityDetail example_failing t
                    (vulnerabilityID_of example_advisory2 (info ?v))
                    (PhpSecurityAdvisories example_failing)
                    (composer_detail example_advisory2
                       (vulnerabilityID_of example_advisory2 (info ?v))) = Inl err) \<or>
       (\<forall>t. \<exists>err. PutVulnerabilityID example_failing t
                    (vulnerabilityID_of example_advisory2 (info ?v)) = Inl err))"
      using f1 f2 f3 by (intro conjI disjI2) (rule f1, simp_all only: f2 f3 simp_thms)
  qed
  have funchanged: "snd (update example_failing None example_visits []) = []"
    by (rule mp[OF failing[THEN conjunct1] fbad])
  have p: "PutDataSource ?d [] (PhpSecurityAdvisories ?d) source = Inr [DataSourceW ''php'' source]"
    by (simp add: recorder_def)
  have w: "walk ?d example_visits [DataSourceW ''php'' source]
             = Inr ([DataSourceW ''php'' source] @ example_log)"
    by (rule example_walk)
  have good: "update ?d None example_visits [] = (None, [DataSourceW ''php'' source] @ example_log)"
    by (rule mp[OF mp[OF whole[THEN conjunct2, THEN conjunct2, THEN conjunct2, THEN conjunct2,
                               THEN conjunct2, THEN conjunct2, THEN conjunct2] conjI[OF p w],
                      THEN conjunct1] refl])
  show ?thesis by (intro conjI bad unchanged fbad funchanged good)
qed

text \<open>
  C8, as stated, fails: with read-only mode asked for and \<open>Enable\<close> not set, \<open>Init\<close>
  opens the store with the library's default options, and the handle is not read-only.
\<close>

theorem Init_ReadOnly_ignored_without_Enable:
  "ReadOnly example_options \<and>
   Init example_env example_state example_options =
     Returns (None, \<lparr>db = Some \<lparr>contents = example_tx, in_force = DefaultOptions\<rparr>,
                     store_file = Present example_tx, panicOnFault = False\<rparr>) \<and>
   \<not> bolt_ReadOnly DefaultOptions"
  by (simp add: example_options_def example_env_def example_state_def Init_def bolt_Open_def opened_file_def
        GetBoltOptions_def DefaultOptions_def zero_bolt_Options_def Let_def)

text \<open>
  C8, amended. When \<open>Init\<close> succeeds without a fault on open, the opened store is
  read-only exactly when the options set both \<open>Enable\<close> and \<open>ReadOnly\<close>; when \<open>Enable\<close>
  is not set the store is opened with the library's default options.
\<close>

theorem Init_ReadOnly_under_Enable:
  assumes "Init e st options = Returns (None, st')" and "firstOpen e \<noteq> Fault"
  shows "\<exists>h. db st' = Some h \<and>
             bolt_ReadOnly (in_force h) = (Enable options \<and> ReadOnly options) \<and>
             (\<not> Enable options \<longrightarrow> in_force h = DefaultOptions)"
  using assms
  by (cases "firstOpen e"; cases "store_file st"; cases "mkdirAll e")
     (auto simp: Init_def bolt_Open_def opened_file_def GetBoltOptions_def DefaultOptions_def
        zero_bolt_Options_def Let_def split: if_splits)

theorem Init_ReadOnly_under_Enable_witness:
  "\<exists>h. db \<lparr>db = Some \<lparr>contents = example_tx,
                        in_force = zero_bolt_Options\<lparr>bolt_ReadOnly := True\<rparr>\<rparr>,
            store_file = Present example_tx, panicOnFault = False\<rparr> = Some h \<and>
       bolt_ReadOnly (in_force h) = True"
proof -
  have h1: "Init example_env example_state (example_options\<lparr>Enable := True\<rparr>) =
     Returns (None, \<lparr>db = Some \<lparr>contents = example_tx,
                                in_force = zero_bolt_Options\<lparr>bolt_ReadOnly := True\<rparr>\<rparr>,
                     store_file = Present example_tx, panicOnFault = False\<rparr>)"
    by (simp add: example_options_def example_env_def example_state_def Init_def bolt_Open_def opened_file_def
        GetBoltOptions_def Let_def)
  have h2: "firstOpen example_env \<noteq> Fault" by (simp add: example_env_def)
  show ?thesis
    using Init_ReadOnly_under_Enable[OF h1 h2] by (simp add: example_options_def)
qed

text \<open>
  C9. On a store that records its writes, a walk that succeeds has written, for every
  visited file that is not a directory and whose name starts with \<open>CVE-\<close>, the three
  records of that file, all under one identifier: the advisory's \<open>Cve\<close> field when it is
  not empty, and otherwise the file's name with the suffix \<open>.yaml\<close> trimmed. Nothing
  else is written.
\<close>

theorem walk_stores_vulnerabilityID:
  assumes "walk (recorder srcName decode) visits log0 = Inr log"
  shows "log = log0 @ concat (map
           (\<lambda>v. case readFile v of
                  Inl _ \<Rightarrow> []
                | Inr buf \<Rightarrow>
                    (case decode buf of
                       Inl _ \<Rightarrow> []
                     | Inr advisory \<Rightarrow>
                         writes_for srcName advisory
                           (if Cve advisory \<noteq> [] then Cve advisory
                            else TrimSuffix (info_Name (info v)) ''.yaml'')))
           (filter (\<lambda>v. \<not> IsDir (info v) \<and> HasPrefix (info_Name (info v)) ''CVE-'') visits))"
  using assms
proof (induction visits arbitrary: log0)
  case Nil
  then show ?case by simp
next
  case (Cons v vs)
  from Cons.prems obtain log1 where
    s: "walk_fn (recorder srcName decode) v log0 = Inr log1"
    and r: "walk (recorder srcName decode) vs log1 = Inr log"
    by (auto split: sum.splits)
  show ?case
    using Cons.IH[OF r] walk_fn_recorder[OF s] by (simp split: if_splits)
qed

theorem walk_stores_vulnerabilityID_witness:
  "walk (recorder ''php'' example_yaml) example_visits [] = Inr example_log \<and>
   example_log = [] @ concat (map
           (\<lambda>v. case readFile v of
                  Inl _ \<Rightarrow> []
                | Inr buf \<Rightarrow>
                    (case example_yaml buf of
                       Inl _ \<Rightarrow> []
                     | Inr advisory \<Rightarrow>
                         writes_for ''php'' advisory
                           (if Cve advisory \<noteq> [] then Cve advisory
                            else TrimSuffix (info_Name (info v)) ''.yaml'')))
           (filter (\<lambda>v. \<not> IsDir (info v) \<and> HasPrefix (info_Name (info v)) ''CVE-'')
              example_visits))"
proof -
  have h: "walk (recorder ''php'' example_yaml) example_visits [] = Inr example_log"
    using example_walk[of "[]"] by simp
  show ?thesis by (rule conjI[OF h walk_stores_vulnerabilityID[OF h]])
qed

end
